theory Spec2Isabelle
  imports Main
begin

unbundle bit_operations_syntax

section \<open>The storage engine, as db.h sees it\<close>

text \<open>
  The record accessor \<^verbatim>\<open>CDB\<close> and the environment manager \<^verbatim>\<open>CDBEnv\<close> of
  \<^verbatim>\<open>src/db.h\<close> call an embedded key-value engine through C function pointers
  (\<^verbatim>\<open>pdb->get\<close>, \<^verbatim>\<open>pdb->put\<close>, \<^verbatim>\<open>pcursor->get\<close>, \<^verbatim>\<open>dbenv->txn_begin\<close>, ...).
  The engine is not part of the repository, so it is a parameter of every function
  below: a record of the entry points the code calls, over an engine state \<open>'s\<close> that
  is passed through each call, and of the constants of the engine's header that the
  code names.
\<close>

type_synonym bytes = string

text \<open>Engine handles are C pointers; a nullable pointer is an \<open>option\<close>, \<open>None\<close> is NULL.\<close>

datatype DB = DB_at nat
datatype DB_TXN = DB_TXN_at nat
datatype DBC = DBC_at nat
datatype DB_ENV = DB_ENV_at nat

text \<open>
  A \<^verbatim>\<open>DBT\<close> is the engine's byte-string descriptor. The fields \<^verbatim>\<open>data\<close> and
  \<^verbatim>\<open>size\<close> together denote the \<^verbatim>\<open>size\<close> bytes at \<^verbatim>\<open>data\<close>: \<open>data = None\<close> is
  the NULL pointer, \<open>data = Some bs\<close> a pointer to the bytes \<open>bs\<close>. \<^verbatim>\<open>DBT x = { 0 }\<close>
  is \<open>DBT_zero\<close>.
\<close>

record DBT =
  data :: "bytes option"
  dbt_flags :: nat

definition DBT_zero :: DBT where
  "DBT_zero = \<lparr>data = None, dbt_flags = 0\<rparr>"

record 's engine =
  DB_NOTFOUND :: int
  DB_NOOVERWRITE :: nat
  DB_DBT_MALLOC :: nat
  DB_TXN_WRITE_NOSYNC :: int
  DB_NEXT :: nat
  DB_SET :: nat
  DB_SET_RANGE :: nat
  DB_GET_BOTH :: nat
  DB_GET_BOTH_RANGE :: nat
  db_get :: "DB \<Rightarrow> DB_TXN option \<Rightarrow> DBT \<Rightarrow> DBT \<Rightarrow> nat \<Rightarrow> 's \<Rightarrow> int \<times> DBT \<times> 's"
  db_put :: "DB \<Rightarrow> DB_TXN option \<Rightarrow> DBT \<Rightarrow> DBT \<Rightarrow> nat \<Rightarrow> 's \<Rightarrow> int \<times> 's"
  db_del :: "DB \<Rightarrow> DB_TXN option \<Rightarrow> DBT \<Rightarrow> nat \<Rightarrow> 's \<Rightarrow> int \<times> 's"
  db_exists :: "DB \<Rightarrow> DB_TXN option \<Rightarrow> DBT \<Rightarrow> nat \<Rightarrow> 's \<Rightarrow> int \<times> 's"
  dbc_get :: "DBC \<Rightarrow> DBT \<Rightarrow> DBT \<Rightarrow> nat \<Rightarrow> 's \<Rightarrow> int \<times> DBT \<times> DBT \<times> 's"
  txn_begin :: "DB_ENV \<Rightarrow> DB_TXN option \<Rightarrow> int \<Rightarrow> 's \<Rightarrow> int \<times> DB_TXN option \<times> 's"
  txn_commit :: "DB_TXN \<Rightarrow> nat \<Rightarrow> 's \<Rightarrow> int \<times> 's"
  txn_abort :: "DB_TXN \<Rightarrow> 's \<Rightarrow> int \<times> 's"

text \<open>
  \<open>db_get\<close> returns the status and the value descriptor as the engine leaves it;
  \<open>dbc_get\<close> returns both descriptors; \<open>txn_begin\<close> returns the status and the
  pointer the engine stored through \<^verbatim>\<open>&ptxn\<close> (\<open>None\<close> when it stored none: the code
  initialises \<^verbatim>\<open>ptxn\<close> to NULL).
\<close>

section \<open>The codec and the stream buffers\<close>

text \<open>
  \<^verbatim>\<open>ssKey << key\<close>, \<^verbatim>\<open>ssValue << value\<close> and \<^verbatim>\<open>ssValue >> value\<close> are the codec of
  \<^verbatim>\<open>serialize.h\<close>; the template parameters \<^verbatim>\<open>K\<close> and \<^verbatim>\<open>T\<close> are the type
  variables \<open>'k\<close> and \<open>'v\<close>. Reading malformed bytes throws a \<^verbatim>\<open>std::exception\<close>;
  \<open>Threw v\<close> carries the output parameter as the failed read left it.
\<close>

datatype 'v unserialized = Unserialized 'v | Threw 'v

record ('k, 'v) codec =
  ser_key :: "'k \<Rightarrow> bytes"
  ser_value :: "'v \<Rightarrow> bytes"
  unser_value :: "bytes \<Rightarrow> 'v \<Rightarrow> 'v unserialized"

text \<open>
  Modelled from the spec: \<^verbatim>\<open>CDataStream\<close> (\<^verbatim>\<open>serialize.h\<close>, which is not among the
  sources) is the key buffer and the value buffer of \<^verbatim>\<open>ReadAtCursor\<close>: the bytes it
  holds and its type tag. \<^verbatim>\<open>&ss[0]\<close> with \<^verbatim>\<open>ss.size()\<close> denotes \<open>vch ss\<close>;
  \<^verbatim>\<open>clear\<close> empties the buffer and \<^verbatim>\<open>write\<close> appends to it. \<open>SER_DISK\<close> is the tag
  of the on-disk encoding; no statement depends on its number.
\<close>

record CDataStream =
  vch :: bytes
  nType :: nat

definition SER_DISK :: nat where
  "SER_DISK = 2"

definition SetType :: "nat \<Rightarrow> CDataStream \<Rightarrow> CDataStream" where
  "SetType n ss = ss\<lparr>nType := n\<rparr>"

definition clear :: "CDataStream \<Rightarrow> CDataStream" where
  "clear ss = ss\<lparr>vch := []\<rparr>"

definition write_bytes :: "bytes \<Rightarrow> CDataStream \<Rightarrow> CDataStream" where
  "write_bytes bs ss = ss\<lparr>vch := vch ss @ bs\<rparr>"

section \<open>The two classes\<close>

record CDBEnv =
  fDbEnvInit :: bool
  fMockDb :: bool
  pathEnv :: string
  strPath :: string
  dbenv :: "DB_ENV option"
  mapFileUseCount :: "string \<rightharpoonup> int"
  mapDb :: "string \<rightharpoonup> DB option"

record CDB =
  pdb :: "DB option"
  strFile :: string
  activeTxn :: "DB_TXN option"
  fReadOnly :: bool

text \<open>
  What ends a call without a return value: a failed \<^verbatim>\<open>assert\<close> (the process aborts;
  the model is the build with assertions on, the default of \<^verbatim>\<open>assert.h\<close>), and a
  call through a NULL \<^verbatim>\<open>dbenv\<close>. Such a call has the outcome \<open>Inl (err, s)\<close>, where
  \<open>s\<close> is the engine state at the point where the call ended: what the call had
  asked of the engine by then is part of its outcome.
\<close>

datatype error = AssertionFailed string | NullPointerDereference

text \<open>
  A parameter with a default value (\<^verbatim>\<open>bool fOverwrite=true\<close>) is an \<open>option\<close>: \<open>None\<close>
  is the call that leaves the argument out.
\<close>

definition or_default :: "'a option \<Rightarrow> 'a \<Rightarrow> 'a" where
  "or_default arg d = (case arg of None \<Rightarrow> d | Some x \<Rightarrow> x)"

subsection \<open>\<^verbatim>\<open>CDBEnv::TxnBegin\<close>\<close>

definition CDBEnv_TxnBegin ::
  "'s engine \<Rightarrow> CDBEnv \<Rightarrow> int option \<Rightarrow> 's \<Rightarrow> (error \<times> 's) + (DB_TXN option \<times> 's)" where
  "CDBEnv_TxnBegin e env flags s =
     (case dbenv env of
        None \<Rightarrow> Inl (NullPointerDereference, s)
      | Some h \<Rightarrow>
          (case txn_begin e h None (or_default flags (DB_TXN_WRITE_NOSYNC e)) s of
             (ret, ptxn, s') \<Rightarrow>
               if ptxn = None \<or> ret \<noteq> 0 then Inr (None, s') else Inr (ptxn, s')))"

subsection \<open>\<^verbatim>\<open>CDB::Read\<close>, \<^verbatim>\<open>Write\<close>, \<^verbatim>\<open>Erase\<close>, \<^verbatim>\<open>Exists\<close>\<close>

text \<open>
  \<open>Read\<close> takes the caller's \<^verbatim>\<open>value\<close> (a reference parameter) and returns the
  boolean together with \<^verbatim>\<open>value\<close> as the call leaves it. The \<^verbatim>\<open>memset\<close> over the
  local key buffer has no effect a caller can see.
\<close>

definition Read ::
  "'s engine \<Rightarrow> ('k, 'v) codec \<Rightarrow> CDB \<Rightarrow> 'k \<Rightarrow> 'v \<Rightarrow> 's \<Rightarrow> (bool \<times> 'v) \<times> 's" where
  "Read e cd a key value s =
     (case pdb a of
        None \<Rightarrow> ((False, value), s)
      | Some d \<Rightarrow>
          (let datKey = DBT_zero\<lparr>data := Some (ser_key cd key)\<rparr>;
               datValue = DBT_zero\<lparr>dbt_flags := dbt_flags DBT_zero OR DB_DBT_MALLOC e\<rparr>
           in case db_get e d (activeTxn a) datKey datValue 0 s of
                (ret, datValue', s') \<Rightarrow>
                  (case data datValue' of
                     None \<Rightarrow> ((False, value), s')
                   | Some bs \<Rightarrow>
                       (case unser_value cd bs value of
                          Threw value' \<Rightarrow> ((False, value'), s')
                        | Unserialized value' \<Rightarrow> ((ret = 0, value'), s')))))"

definition Write ::
  "'s engine \<Rightarrow> ('k, 'v) codec \<Rightarrow> CDB \<Rightarrow> 'k \<Rightarrow> 'v \<Rightarrow> bool option \<Rightarrow> 's \<Rightarrow> (error \<times> 's) + (bool \<times> 's)" where
  "Write e cd a key value fOverwrite s =
     (case pdb a of
        None \<Rightarrow> Inr (False, s)
      | Some d \<Rightarrow>
          if fReadOnly a then Inl (AssertionFailed ''Write called on database in read-only mode'', s)
          else
            (let datKey = DBT_zero\<lparr>data := Some (ser_key cd key)\<rparr>;
                 datValue = DBT_zero\<lparr>data := Some (ser_value cd value)\<rparr>
             in case db_put e d (activeTxn a) datKey datValue
                       (if or_default fOverwrite True then 0 else DB_NOOVERWRITE e) s of
                  (ret, s') \<Rightarrow> Inr (ret = 0, s')))"

definition Erase ::
  "'s engine \<Rightarrow> ('k, 'v) codec \<Rightarrow> CDB \<Rightarrow> 'k \<Rightarrow> 's \<Rightarrow> (error \<times> 's) + (bool \<times> 's)" where
  "Erase e cd a key s =
     (case pdb a of
        None \<Rightarrow> Inr (False, s)
      | Some d \<Rightarrow>
          if fReadOnly a then Inl (AssertionFailed ''Erase called on database in read-only mode'', s)
          else
            (let datKey = DBT_zero\<lparr>data := Some (ser_key cd key)\<rparr>
             in case db_del e d (activeTxn a) datKey 0 s of
                  (ret, s') \<Rightarrow> Inr (ret = 0 \<or> ret = DB_NOTFOUND e, s')))"

definition Exists ::
  "'s engine \<Rightarrow> ('k, 'v) codec \<Rightarrow> CDB \<Rightarrow> 'k \<Rightarrow> 's \<Rightarrow> bool \<times> 's" where
  "Exists e cd a key s =
     (case pdb a of
        None \<Rightarrow> (False, s)
      | Some d \<Rightarrow>
          (let datKey = DBT_zero\<lparr>data := Some (ser_key cd key)\<rparr>
           in case db_exists e d (activeTxn a) datKey 0 s of
                (ret, s') \<Rightarrow> (ret = 0, s')))"

subsection \<open>\<^verbatim>\<open>CDB::ReadAtCursor\<close>\<close>

definition ReadAtCursor ::
  "'s engine \<Rightarrow> DBC \<Rightarrow> CDataStream \<Rightarrow> CDataStream \<Rightarrow> nat option \<Rightarrow> 's
     \<Rightarrow> int \<times> CDataStream \<times> CDataStream \<times> 's" where
  "ReadAtCursor e pcursor ssKey ssValue fFlags s =
     (let f = or_default fFlags (DB_NEXT e);
          datKey = DBT_zero;
          datValue = DBT_zero;
          datKey = (if f = DB_SET e \<or> f = DB_SET_RANGE e \<or> f = DB_GET_BOTH e \<or> f = DB_GET_BOTH_RANGE e
                    then datKey\<lparr>data := Some (vch ssKey)\<rparr> else datKey);
          datValue = (if f = DB_GET_BOTH e \<or> f = DB_GET_BOTH_RANGE e
                      then datValue\<lparr>data := Some (vch ssValue)\<rparr> else datValue);
          datKey = datKey\<lparr>dbt_flags := dbt_flags datKey OR DB_DBT_MALLOC e\<rparr>;
          datValue = datValue\<lparr>dbt_flags := dbt_flags datValue OR DB_DBT_MALLOC e\<rparr>
      in case dbc_get e pcursor datKey datValue f s of
           (ret, datKey', datValue', s') \<Rightarrow>
             if ret \<noteq> 0 then (ret, ssKey, ssValue, s')
             else
               (case (data datKey', data datValue') of
                  (Some kb, Some vb) \<Rightarrow>
                    (0, write_bytes kb (clear (SetType SER_DISK ssKey)),
                        write_bytes vb (clear (SetType SER_DISK ssValue)), s')
                | _ \<Rightarrow> (99999, ssKey, ssValue, s')))"

subsection \<open>\<^verbatim>\<open>CDB::TxnBegin\<close>, \<^verbatim>\<open>TxnCommit\<close>, \<^verbatim>\<open>TxnAbort\<close>\<close>

text \<open>
  \<open>bitdb\<close> is the process-wide \<^verbatim>\<open>CDBEnv\<close>; \<open>TxnBegin\<close> only reads it. In
  \<open>TxnCommit\<close> and \<open>TxnAbort\<close> the transaction that is committed or aborted is
  \<open>the (activeTxn a)\<close>, behind the guard that it is not NULL.
\<close>

definition TxnBegin ::
  "'s engine \<Rightarrow> CDBEnv \<Rightarrow> CDB \<Rightarrow> 's \<Rightarrow> (error \<times> 's) + (bool \<times> CDB \<times> 's)" where
  "TxnBegin e bitdb a s =
     (if pdb a = None \<or> activeTxn a \<noteq> None then Inr (False, a, s)
      else
        (case CDBEnv_TxnBegin e bitdb None s of
           Inl err \<Rightarrow> Inl err
         | Inr (ptxn, s') \<Rightarrow>
             (case ptxn of
                None \<Rightarrow> Inr (False, a, s')
              | Some t \<Rightarrow> Inr (True, a\<lparr>activeTxn := Some t\<rparr>, s'))))"

definition TxnCommit :: "'s engine \<Rightarrow> CDB \<Rightarrow> 's \<Rightarrow> bool \<times> CDB \<times> 's" where
  "TxnCommit e a s =
     (if pdb a = None \<or> activeTxn a = None then (False, a, s)
      else
        (case txn_commit e (the (activeTxn a)) 0 s of
           (ret, s') \<Rightarrow> (ret = 0, a\<lparr>activeTxn := None\<rparr>, s')))"

definition TxnAbort :: "'s engine \<Rightarrow> CDB \<Rightarrow> 's \<Rightarrow> bool \<times> CDB \<times> 's" where
  "TxnAbort e a s =
     (if pdb a = None \<or> activeTxn a = None then (False, a, s)
      else
        (case txn_abort e (the (activeTxn a)) s of
           (ret, s') \<Rightarrow> (ret = 0, a\<lparr>activeTxn := None\<rparr>, s')))"

section \<open>Observing the calls the code makes\<close>

text \<open>
  \<open>recording e\<close> is the engine \<open>e\<close> with a log: every entry point appends its
  arguments to the log and then answers as \<open>e\<close> does. What the code asks of the engine
  is what it makes \<open>recording e\<close> log.
\<close>

datatype call =
    Call_db_get DB "DB_TXN option" DBT DBT nat
  | Call_db_put DB "DB_TXN option" DBT DBT nat
  | Call_db_del DB "DB_TXN option" DBT nat
  | Call_db_exists DB "DB_TXN option" DBT nat
  | Call_dbc_get DBC DBT DBT nat
  | Call_txn_begin DB_ENV "DB_TXN option" int
  | Call_txn_commit DB_TXN nat
  | Call_txn_abort DB_TXN

definition recording :: "'s engine \<Rightarrow> ('s \<times> call list) engine" where
  "recording e =
     \<lparr>DB_NOTFOUND = DB_NOTFOUND e,
      DB_NOOVERWRITE = DB_NOOVERWRITE e,
      DB_DBT_MALLOC = DB_DBT_MALLOC e,
      DB_TXN_WRITE_NOSYNC = DB_TXN_WRITE_NOSYNC e,
      DB_NEXT = DB_NEXT e,
      DB_SET = DB_SET e,
      DB_SET_RANGE = DB_SET_RANGE e,
      DB_GET_BOTH = DB_GET_BOTH e,
      DB_GET_BOTH_RANGE = DB_GET_BOTH_RANGE e,
      db_get = (\<lambda>d t k v f sl. case db_get e d t k v f (fst sl) of
                 (ret, v', s') \<Rightarrow> (ret, v', (s', snd sl @ [Call_db_get d t k v f]))),
      db_put = (\<lambda>d t k v f sl. case db_put e d t k v f (fst sl) of
                 (ret, s') \<Rightarrow> (ret, (s', snd sl @ [Call_db_put d t k v f]))),
      db_del = (\<lambda>d t k f sl. case db_del e d t k f (fst sl) of
                 (ret, s') \<Rightarrow> (ret, (s', snd sl @ [Call_db_del d t k f]))),
      db_exists = (\<lambda>d t k f sl. case db_exists e d t k f (fst sl) of
                 (ret, s') \<Rightarrow> (ret, (s', snd sl @ [Call_db_exists d t k f]))),
      dbc_get = (\<lambda>c k v f sl. case dbc_get e c k v f (fst sl) of
                 (ret, k', v', s') \<Rightarrow> (ret, k', v', (s', snd sl @ [Call_dbc_get c k v f]))),
      txn_begin = (\<lambda>h parent f sl. case txn_begin e h parent f (fst sl) of
                 (ret, ptxn, s') \<Rightarrow> (ret, ptxn, (s', snd sl @ [Call_txn_begin h parent f]))),
      txn_commit = (\<lambda>t f sl. case txn_commit e t f (fst sl) of
                 (ret, s') \<Rightarrow> (ret, (s', snd sl @ [Call_txn_commit t f]))),
      txn_abort = (\<lambda>t sl. case txn_abort e t (fst sl) of
                 (ret, s') \<Rightarrow> (ret, (s', snd sl @ [Call_txn_abort t])))\<rparr>"

section \<open>A reference engine\<close>

text \<open>
  A small engine to run the code on: one table of byte strings per database handle,
  no isolation between transactions, and a cursor \<open>DBC_at n\<close> over the table of
  \<open>DB_at n\<close> that can only be positioned on an exact key (\<open>DB_SET\<close>). Its header
  constants are pairwise distinct numbers of its own. \<open>null_data_engine\<close> is the same
  engine with a cursor that reports status 0 and hands back no key data, and
  \<open>failing_txn_engine\<close> the same engine with transaction calls that all report an
  error. \<open>string_codec\<close> encodes a string as itself and throws on decoding the empty
  byte string.
\<close>

type_synonym kv_state = "DB \<Rightarrow> bytes \<rightharpoonup> bytes"

definition kv_engine :: "kv_state engine" where
  "kv_engine =
     \<lparr>DB_NOTFOUND = - 30988,
      DB_NOOVERWRITE = 20,
      DB_DBT_MALLOC = 4,
      DB_TXN_WRITE_NOSYNC = 32,
      DB_NEXT = 16,
      DB_SET = 26,
      DB_SET_RANGE = 27,
      DB_GET_BOTH = 8,
      DB_GET_BOTH_RANGE = 10,
      db_get = (\<lambda>d t k v f s.
         case data k of
           None \<Rightarrow> (22, v, s)
         | Some kb \<Rightarrow>
             (case s d kb of
                None \<Rightarrow> (- 30988, v, s)
              | Some vb \<Rightarrow> (0, v\<lparr>data := Some vb\<rparr>, s))),
      db_put = (\<lambda>d t k v f s.
         case (data k, data v) of
           (Some kb, Some vb) \<Rightarrow>
             if f = 20 \<and> s d kb \<noteq> None then (- 30995, s)
             else (0, s(d := (s d)(kb \<mapsto> vb)))
         | _ \<Rightarrow> (22, s)),
      db_del = (\<lambda>d t k f s.
         case data k of
           None \<Rightarrow> (22, s)
         | Some kb \<Rightarrow>
             if s d kb = None then (- 30988, s)
             else (0, s(d := (s d)(kb := None)))),
      db_exists = (\<lambda>d t k f s.
         case data k of
           None \<Rightarrow> (22, s)
         | Some kb \<Rightarrow> if s d kb = None then (- 30988, s) else (0, s)),
      dbc_get = (\<lambda>c k v f s.
         case c of DBC_at n \<Rightarrow>
           (case data k of
              Some kb \<Rightarrow>
                (if f = 26 then
                   (case s (DB_at n) kb of
                      None \<Rightarrow> (- 30988, k, v, s)
                    | Some vb \<Rightarrow> (0, k\<lparr>data := Some kb\<rparr>, v\<lparr>data := Some vb\<rparr>, s))
                 else (- 30988, k, v, s))
            | None \<Rightarrow> (- 30988, k, v, s))),
      txn_begin = (\<lambda>h parent f s. (0, Some (DB_TXN_at 1), s)),
      txn_commit = (\<lambda>t f s. (0, s)),
      txn_abort = (\<lambda>t s. (0, s))\<rparr>"

definition null_data_engine :: "kv_state engine" where
  "null_data_engine = kv_engine\<lparr>dbc_get := (\<lambda>c k v f s. (0, k\<lparr>data := None\<rparr>, v, s))\<rparr>"

definition failing_txn_engine :: "kv_state engine" where
  "failing_txn_engine =
     kv_engine\<lparr>txn_begin := (\<lambda>h parent f s. (12, None, s)),
               txn_commit := (\<lambda>t f s. (- 30994, s)),
               txn_abort := (\<lambda>t s. (22, s))\<rparr>"

definition string_codec :: "(string, string) codec" where
  "string_codec =
     \<lparr>ser_key = (\<lambda>k. k),
      ser_value = (\<lambda>v. v),
      unser_value = (\<lambda>bs v. if bs = [] then Threw v else Unserialized bs)\<rparr>"

section \<open>Notions of the statements\<close>

subsection \<open>The seek target of \<^verbatim>\<open>ReadAtCursor\<close>, in the spec's words\<close>

text \<open>
  The spec: for the "set" and "get-both" positionings the caller's key buffer is the
  seek target, and for get-both the value buffer too. \<open>seek_key\<close> and \<open>seek_value\<close>
  are the descriptors this describes: the buffer's bytes for those flags, NULL for any
  other flag, both marked \<^verbatim>\<open>DB_DBT_MALLOC\<close>.
\<close>

definition seek_key :: "'s engine \<Rightarrow> nat \<Rightarrow> CDataStream \<Rightarrow> DBT" where
  "seek_key e f ssKey =
     \<lparr>data = (if f \<in> {DB_SET e, DB_SET_RANGE e, DB_GET_BOTH e, DB_GET_BOTH_RANGE e}
              then Some (vch ssKey) else None),
      dbt_flags = DB_DBT_MALLOC e\<rparr>"

definition seek_value :: "'s engine \<Rightarrow> nat \<Rightarrow> CDataStream \<Rightarrow> DBT" where
  "seek_value e f ssValue =
     \<lparr>data = (if f \<in> {DB_GET_BOTH e, DB_GET_BOTH_RANGE e} then Some (vch ssValue) else None),
      dbt_flags = DB_DBT_MALLOC e\<rparr>"

subsection \<open>An accessor as the code can leave it\<close>

text \<open>
  \<^verbatim>\<open>TxnBegin\<close> is the only place of db.h that stores a transaction, and it does so
  only behind \<^verbatim>\<open>if (!pdb || activeTxn) return false\<close>: an accessor without a
  database handle has no transaction.
\<close>

definition txn_needs_handle :: "CDB \<Rightarrow> bool" where
  "txn_needs_handle a = (pdb a = None \<longrightarrow> activeTxn a = None)"

subsection \<open>What is assumed of the engine\<close>

text \<open>
  The engine is assumed correct. \<open>reads_back\<close>: a point lookup of the key bytes \<open>kb\<close>,
  as \<open>Read\<close> issues it, succeeds with the value bytes \<open>vb\<close>. \<open>store_contract\<close>, for
  one handle and transaction: a put that reports success is read back, and no get,
  put, del or exists on other key bytes changes what a key reads back, whatever its
  flags and its status. \<open>del_contract\<close>: after a del that removed the key or found it
  absent, the key is absent, so that a second del reports \<^verbatim>\<open>DB_NOTFOUND\<close> and
  changes nothing.
\<close>

definition key_dbt :: "bytes \<Rightarrow> DBT" where
  "key_dbt kb = \<lparr>data = Some kb, dbt_flags = 0\<rparr>"

definition malloc_dbt :: "'s engine \<Rightarrow> DBT" where
  "malloc_dbt e = \<lparr>data = None, dbt_flags = DB_DBT_MALLOC e\<rparr>"

definition reads_back :: "'s engine \<Rightarrow> DB \<Rightarrow> DB_TXN option \<Rightarrow> bytes \<Rightarrow> bytes \<Rightarrow> 's \<Rightarrow> bool" where
  "reads_back e d t kb vb s =
     (case db_get e d t (key_dbt kb) (malloc_dbt e) 0 s of
        (ret, v', s') \<Rightarrow> ret = 0 \<and> data v' = Some vb)"

definition store_contract :: "'s engine \<Rightarrow> DB \<Rightarrow> DB_TXN option \<Rightarrow> bool" where
  "store_contract e d t =
     ((\<forall>kb vb f s. fst (db_put e d t (key_dbt kb) (key_dbt vb) f s) = 0 \<longrightarrow>
          reads_back e d t kb vb (snd (db_put e d t (key_dbt kb) (key_dbt vb) f s))) \<and>
      (\<forall>kb vb kb' s. kb' \<noteq> kb \<and> reads_back e d t kb vb s \<longrightarrow>
          reads_back e d t kb vb (snd (snd (db_get e d t (key_dbt kb') (malloc_dbt e) 0 s))) \<and>
          (\<forall>vb' f. reads_back e d t kb vb (snd (db_put e d t (key_dbt kb') (key_dbt vb') f s))) \<and>
          reads_back e d t kb vb (snd (db_del e d t (key_dbt kb') 0 s)) \<and>
          reads_back e d t kb vb (snd (db_exists e d t (key_dbt kb') 0 s))))"

definition del_contract :: "'s engine \<Rightarrow> DB \<Rightarrow> DB_TXN option \<Rightarrow> bool" where
  "del_contract e d t =
     (\<forall>kb s. fst (db_del e d t (key_dbt kb) 0 s) \<in> {0, DB_NOTFOUND e} \<longrightarrow>
        db_del e d t (key_dbt kb) 0 (snd (db_del e d t (key_dbt kb) 0 s))
          = (DB_NOTFOUND e, snd (db_del e d t (key_dbt kb) 0 s)))"

subsection \<open>Record operations in sequence\<close>

text \<open>
  A caller's sequence of record operations on one accessor; the engine state runs
  through them, and a failed assertion ends the sequence.
\<close>

datatype ('k, 'v) record_op =
    Op_Read 'k 'v
  | Op_Write 'k 'v "bool option"
  | Op_Erase 'k
  | Op_Exists 'k

fun op_key :: "('k, 'v) record_op \<Rightarrow> 'k" where
  "op_key (Op_Read k v) = k"
| "op_key (Op_Write k v fOverwrite) = k"
| "op_key (Op_Erase k) = k"
| "op_key (Op_Exists k) = k"

fun do_op :: "'s engine \<Rightarrow> ('k, 'v) codec \<Rightarrow> CDB \<Rightarrow> ('k, 'v) record_op \<Rightarrow> 's \<Rightarrow> (error \<times> 's) + 's" where
  "do_op e cd a (Op_Read k v) s = Inr (snd (Read e cd a k v s))"
| "do_op e cd a (Op_Write k v fOverwrite) s =
     (case Write e cd a k v fOverwrite s of Inl err \<Rightarrow> Inl err | Inr (ok, s') \<Rightarrow> Inr s')"
| "do_op e cd a (Op_Erase k) s =
     (case Erase e cd a k s of Inl err \<Rightarrow> Inl err | Inr (ok, s') \<Rightarrow> Inr s')"
| "do_op e cd a (Op_Exists k) s = Inr (snd (Exists e cd a k s))"

fun do_ops :: "'s engine \<Rightarrow> ('k, 'v) codec \<Rightarrow> CDB \<Rightarrow> ('k, 'v) record_op list \<Rightarrow> 's \<Rightarrow> (error \<times> 's) + 's" where
  "do_ops e cd a [] s = Inr s"
| "do_ops e cd a (x # xs) s =
     (case do_op e cd a x s of Inl err \<Rightarrow> Inl err | Inr s' \<Rightarrow> do_ops e cd a xs s')"

text \<open>Erasing the same key twice in a row, the second call on the state the first left.\<close>

definition Erase_twice ::
  "'s engine \<Rightarrow> ('k, 'v) codec \<Rightarrow> CDB \<Rightarrow> 'k \<Rightarrow> 's \<Rightarrow> (error \<times> 's) + (bool \<times> 's)" where
  "Erase_twice e cd a key s =
     (case Erase e cd a key s of Inl err \<Rightarrow> Inl err | Inr (ok, s') \<Rightarrow> Erase e cd a key s')"

section \<open>Opening and closing files\<close>

text \<open>
  Modelled from the spec: the constructor of \<^verbatim>\<open>CDB\<close>, \<^verbatim>\<open>CDB::Close\<close> and the file
  bookkeeping of \<^verbatim>\<open>CDBEnv\<close> are declared in db.h and defined in a file that is not
  among the sources. The definitions below follow the spec's sentences (4.1
  \<^verbatim>\<open>OpenFile\<close> and \<^verbatim>\<open>CloseFile\<close>, 4.2 construction and destruction) over the two maps
  that db.h declares:
  \<^item> \<^verbatim>\<open>OpenFile\<close>: "if the file is already open, increments its reference count and
    returns the existing handle; otherwise opens a new handle inside the environment,
    inserts it with reference count 1. Fails with FileOpenError if the environment is
    not open or the engine rejects the open". \<open>engine_open\<close> is the engine's answer to
    the open request, \<open>None\<close> when it rejects it.
  \<^item> \<^verbatim>\<open>CloseFile\<close>: "decrements reference count; when it reaches zero, closes the
    underlying handle and removes both map entries. No-op if the file is not currently
    tracked."
  \<^item> Construction "internally calls Environment Manager OpenFile. Fails with
    AccessorOpenError if the environment is not open or the engine open fails";
    destruction "unconditionally calls Close, which releases the file handle via
    CloseFile" (the abort of a transaction that is still active does not touch the
    maps and is left out).
  The overview of the spec (section 2) adds "while the environment is not in
  mock/ephemeral mode" to the closing at count zero; \<^verbatim>\<open>CloseFile\<close> as section 4.1
  defines it has no such condition, and none is modelled.
\<close>

datatype open_error = FileOpenError | AccessorOpenError

definition refcount :: "CDBEnv \<Rightarrow> string \<Rightarrow> int" where
  "refcount env F = (case mapFileUseCount env F of None \<Rightarrow> 0 | Some n \<Rightarrow> n)"

definition OpenFile :: "CDBEnv \<Rightarrow> string \<Rightarrow> DB option \<Rightarrow> open_error + (DB option \<times> CDBEnv)" where
  "OpenFile env fileName engine_open =
     (if dbenv env = None then Inl FileOpenError
      else
        (case mapDb env fileName of
           Some p \<Rightarrow>
             Inr (p, env\<lparr>mapFileUseCount :=
                          (mapFileUseCount env)(fileName \<mapsto> refcount env fileName + 1)\<rparr>)
         | None \<Rightarrow>
             (case engine_open of
                None \<Rightarrow> Inl FileOpenError
              | Some h \<Rightarrow>
                  Inr (Some h, env\<lparr>mapDb := (mapDb env)(fileName \<mapsto> Some h),
                                   mapFileUseCount := (mapFileUseCount env)(fileName \<mapsto> 1)\<rparr>))))"

definition CloseFile :: "CDBEnv \<Rightarrow> string \<Rightarrow> CDBEnv" where
  "CloseFile env fileName =
     (case mapFileUseCount env fileName of
        None \<Rightarrow> env
      | Some n \<Rightarrow>
          if n - 1 = 0
          then env\<lparr>mapFileUseCount := (mapFileUseCount env)(fileName := None),
                   mapDb := (mapDb env)(fileName := None)\<rparr>
          else env\<lparr>mapFileUseCount := (mapFileUseCount env)(fileName \<mapsto> n - 1)\<rparr>)"

definition CDB_Open :: "CDBEnv \<Rightarrow> string \<Rightarrow> bool \<Rightarrow> DB option \<Rightarrow> open_error + (CDB \<times> CDBEnv)" where
  "CDB_Open env fileName readOnly engine_open =
     (case OpenFile env fileName engine_open of
        Inl err \<Rightarrow> Inl AccessorOpenError
      | Inr (h, env') \<Rightarrow>
          Inr (\<lparr>pdb = h, strFile = fileName, activeTxn = None, fReadOnly = readOnly\<rparr>, env'))"

definition Close :: "CDBEnv \<Rightarrow> CDB \<Rightarrow> CDBEnv" where
  "Close env a = CloseFile env (strFile a)"

text \<open>
  The environment together with the accessors that are alive: those whose open
  succeeded and that have not been destroyed. An event opens an accessor (with the
  engine's answer, should the engine be asked) or destroys the \<open>i\<close>-th live one.
\<close>

record world =
  environment :: CDBEnv
  live :: "CDB list"

datatype event = Ev_Open string bool "DB option" | Ev_Destroy nat

fun step :: "world \<Rightarrow> event \<Rightarrow> world" where
  "step w (Ev_Open fileName readOnly engine_open) =
     (case CDB_Open (environment w) fileName readOnly engine_open of
        Inl err \<Rightarrow> w
      | Inr (a, env') \<Rightarrow> w\<lparr>environment := env', live := live w @ [a]\<rparr>)"
| "step w (Ev_Destroy i) =
     (if i < length (live w)
      then w\<lparr>environment := Close (environment w) (live w ! i),
             live := take i (live w) @ drop (Suc i) (live w)\<rparr>
      else w)"

definition run :: "world \<Rightarrow> event list \<Rightarrow> world" where
  "run w evs = foldl step w evs"

definition live_on :: "world \<Rightarrow> string \<Rightarrow> nat" where
  "live_on w F = length (filter (\<lambda>a. strFile a = F) (live w))"

definition fresh :: "CDBEnv \<Rightarrow> bool" where
  "fresh env = (mapDb env = Map.empty \<and> mapFileUseCount env = Map.empty)"

text \<open>
  The bookkeeping is \<open>consistent\<close> when the two maps have the same keys, every
  count in the map is at least 1 and is the number of live accessors of that file,
  and a file that is in neither map has no live accessor.
\<close>

definition consistent :: "world \<Rightarrow> bool" where
  "consistent w =
     (\<forall>F. (mapDb (environment w) F \<noteq> None) = (mapFileUseCount (environment w) F \<noteq> None)
        \<and> (case mapFileUseCount (environment w) F of
             None \<Rightarrow> live_on w F = 0
           | Some n \<Rightarrow> n = int (live_on w F) \<and> 1 \<le> n))"

section \<open>Concrete inputs\<close>

definition wallet :: CDB where
  "wallet = \<lparr>pdb = Some (DB_at 1), strFile = ''wallet.dat'', activeTxn = None, fReadOnly = False\<rparr>"

definition wallet_ro :: CDB where
  "wallet_ro = wallet\<lparr>fReadOnly := True\<rparr>"

definition wallet_closed :: CDB where
  "wallet_closed = wallet\<lparr>pdb := None\<rparr>"

definition wallet_in_txn :: CDB where
  "wallet_in_txn = wallet\<lparr>activeTxn := Some (DB_TXN_at 7)\<rparr>"

definition no_records :: kv_state where
  "no_records = (\<lambda>d. Map.empty)"

definition wallet_records :: kv_state where
  "wallet_records = no_records(DB_at 1 := [''version'' \<mapsto> ''1'', ''bad'' \<mapsto> []])"

definition open_twice_close_once :: "event list" where
  "open_twice_close_once =
     [Ev_Open ''wallet.dat'' False (Some (DB_at 1)),
      Ev_Open ''wallet.dat'' True None,
      Ev_Open ''blkindex.dat'' False None,
      Ev_Destroy 0]"

definition version_buffer :: CDataStream where
  "version_buffer = \<lparr>vch = ''version'', nType = 1\<rparr>"

definition empty_buffer :: CDataStream where
  "empty_buffer = \<lparr>vch = [], nType = 1\<rparr>"

definition open_env :: CDBEnv where
  "open_env = \<lparr>fDbEnvInit = True, fMockDb = False, pathEnv = ''/data'', strPath = ''/data'',
               dbenv = Some (DB_ENV_at 0), mapFileUseCount = Map.empty, mapDb = Map.empty\<rparr>"

section \<open>The record operations, unfolded\<close>

lemma key_dbt_eq: "DBT_zero\<lparr>data := Some kb\<rparr> = key_dbt kb"
  by (simp add: DBT_zero_def key_dbt_def)

lemma malloc_dbt_eq: "DBT_zero\<lparr>dbt_flags := dbt_flags DBT_zero OR DB_DBT_MALLOC e\<rparr> = malloc_dbt e"
  by (simp add: DBT_zero_def malloc_dbt_def)

lemma Read_open:
  "pdb a = Some d \<Longrightarrow>
   Read e cd a key value s =
     (case db_get e d (activeTxn a) (key_dbt (ser_key cd key)) (malloc_dbt e) 0 s of
        (ret, datValue', s') \<Rightarrow>
          (case data datValue' of
             None \<Rightarrow> ((False, value), s')
           | Some bs \<Rightarrow>
               (case unser_value cd bs value of
                  Threw value' \<Rightarrow> ((False, value'), s')
                | Unserialized value' \<Rightarrow> ((ret = 0, value'), s'))))"
  by (simp add: Read_def key_dbt_eq malloc_dbt_eq)

lemma Write_open:
  "pdb a = Some d \<Longrightarrow> \<not> fReadOnly a \<Longrightarrow>
   Write e cd a key value fOverwrite s =
     (case db_put e d (activeTxn a) (key_dbt (ser_key cd key)) (key_dbt (ser_value cd value))
             (if or_default fOverwrite True then 0 else DB_NOOVERWRITE e) s of
        (ret, s') \<Rightarrow> Inr (ret = 0, s'))"
  by (simp add: Write_def key_dbt_eq)

lemma Erase_open:
  "pdb a = Some d \<Longrightarrow> \<not> fReadOnly a \<Longrightarrow>
   Erase e cd a key s =
     (case db_del e d (activeTxn a) (key_dbt (ser_key cd key)) 0 s of
        (ret, s') \<Rightarrow> Inr (ret = 0 \<or> ret = DB_NOTFOUND e, s'))"
  by (simp add: Erase_def key_dbt_eq)

lemma Exists_open:
  "pdb a = Some d \<Longrightarrow>
   Exists e cd a key s =
     (case db_exists e d (activeTxn a) (key_dbt (ser_key cd key)) 0 s of
        (ret, s') \<Rightarrow> (ret = 0, s'))"
  by (simp add: Exists_def key_dbt_eq)

section \<open>Writing through a read-only accessor\<close>

text \<open>
  C1, as the code has it. On a read-only accessor with a database handle, \<open>Write\<close> and
  \<open>Erase\<close> do not return at all: the assertion fails before the engine is asked, for
  every key, value and overwrite flag. The call ends on the engine state it started
  from, whatever the engine is, and the recording engine has logged no call.
  The read-only check is not the first check of the call: the NULL-handle check
  stands before it, and a read-only accessor without a handle gets \<open>false\<close> back,
  with the engine untouched.
\<close>

theorem read_only_write_asserts:
  assumes "fReadOnly a"
  shows "(pdb a \<noteq> None \<longrightarrow>
            Write e cd a key value fOverwrite s
              = Inl (AssertionFailed ''Write called on database in read-only mode'', s)
          \<and> Erase e cd a key s
              = Inl (AssertionFailed ''Erase called on database in read-only mode'', s)
          \<and> Write (recording e) cd a key value fOverwrite (s, log)
              = Inl (AssertionFailed ''Write called on database in read-only mode'', (s, log))
          \<and> Erase (recording e) cd a key (s, log)
              = Inl (AssertionFailed ''Erase called on database in read-only mode'', (s, log)))
       \<and> (pdb a = None \<longrightarrow>
            Write e cd a key value fOverwrite s = Inr (False, s)
          \<and> Erase e cd a key s = Inr (False, s)
          \<and> Write (recording e) cd a key value fOverwrite (s, log) = Inr (False, (s, log))
          \<and> Erase (recording e) cd a key (s, log) = Inr (False, (s, log)))"
  using assms by (auto simp: Write_def Erase_def)

theorem read_only_write_asserts_witness:
  "fReadOnly wallet_ro
   \<and> Write kv_engine string_codec wallet_ro ''version'' ''2'' None wallet_records
       = Inl (AssertionFailed ''Write called on database in read-only mode'', wallet_records)
   \<and> Erase kv_engine string_codec wallet_ro ''version'' wallet_records
       = Inl (AssertionFailed ''Erase called on database in read-only mode'', wallet_records)
   \<and> Write (recording kv_engine) string_codec wallet_ro ''version'' ''2'' None (wallet_records, [])
       = Inl (AssertionFailed ''Write called on database in read-only mode'', (wallet_records, []))
   \<and> Erase (recording kv_engine) string_codec wallet_ro ''version'' (wallet_records, [])
       = Inl (AssertionFailed ''Erase called on database in read-only mode'', (wallet_records, []))
   \<and> Write kv_engine string_codec (wallet_ro\<lparr>pdb := None\<rparr>) ''version'' ''2'' None wallet_records
       = Inr (False, wallet_records)
   \<and> Erase kv_engine string_codec (wallet_ro\<lparr>pdb := None\<rparr>) ''version'' wallet_records
       = Inr (False, wallet_records)"
proof -
  have ro: "fReadOnly wallet_ro" "fReadOnly (wallet_ro\<lparr>pdb := None\<rparr>)"
    by (simp_all add: wallet_ro_def wallet_def)
  have h: "pdb wallet_ro \<noteq> None" "pdb (wallet_ro\<lparr>pdb := None\<rparr>) = None"
    by (simp_all add: wallet_ro_def wallet_def)
  show ?thesis
    using ro(1) h
      read_only_write_asserts [OF ro(1), of kv_engine string_codec "''version''" "''2''" None
        wallet_records "[]"]
      read_only_write_asserts [OF ro(2), of kv_engine string_codec "''version''" "''2''" None
        wallet_records "[]"]
    by blast
qed

text \<open>
  The claim as the spec words it (the call returns \<open>false\<close>) fails on the read-only
  accessor of the open file \<^verbatim>\<open>wallet.dat\<close>: the call ends in the failed assertion.
\<close>

theorem read_only_write_returns_false_counterexample:
  "Write kv_engine string_codec wallet_ro ''version'' ''2'' None wallet_records
     = Inl (AssertionFailed ''Write called on database in read-only mode'', wallet_records)
   \<and> Write kv_engine string_codec wallet_ro ''version'' ''2'' None wallet_records
     \<noteq> Inr (False, wallet_records)"
  by (simp add: Write_def wallet_ro_def wallet_def)

section \<open>An accessor without a database handle\<close>

text \<open>
  C9. When \<^verbatim>\<open>pdb\<close> is NULL, \<open>Read\<close>, \<open>Write\<close>, \<open>Erase\<close> and \<open>Exists\<close> return \<open>false\<close>
  at once: the engine state is the one the call started from, whatever the engine is,
  the caller's \<^verbatim>\<open>value\<close> is untouched, and the recording engine logs no call.
\<close>

theorem null_handle_returns_false:
  assumes "pdb a = None"
  shows "Read e cd a key value s = ((False, value), s)
       \<and> Write e cd a key v fOverwrite s = Inr (False, s)
       \<and> Erase e cd a key s = Inr (False, s)
       \<and> Exists e cd a key s = (False, s)
       \<and> Read (recording e) cd a key value (s, log) = ((False, value), (s, log))
       \<and> Write (recording e) cd a key v fOverwrite (s, log) = Inr (False, (s, log))
       \<and> Erase (recording e) cd a key (s, log) = Inr (False, (s, log))
       \<and> Exists (recording e) cd a key (s, log) = (False, (s, log))"
  using assms by (simp add: Read_def Write_def Erase_def Exists_def)

theorem null_handle_returns_false_witness:
  "pdb wallet_closed = None
   \<and> Read kv_engine string_codec wallet_closed ''version'' ''0'' wallet_records
       = ((False, ''0''), wallet_records)
   \<and> Write kv_engine string_codec wallet_closed ''version'' ''2'' None wallet_records
       = Inr (False, wallet_records)
   \<and> Erase kv_engine string_codec wallet_closed ''version'' wallet_records
       = Inr (False, wallet_records)
   \<and> Exists kv_engine string_codec wallet_closed ''version'' wallet_records
       = (False, wallet_records)"
proof -
  have h: "pdb wallet_closed = None"
    by (simp add: wallet_closed_def)
  show ?thesis
    using h null_handle_returns_false [OF h, of kv_engine string_codec "''version''" _ wallet_records]
    by blast
qed

section \<open>Beginning a transaction in the environment\<close>

text \<open>
  C5. With a live environment handle, \<open>CDBEnv_TxnBegin\<close> asks the engine for a
  transaction without a parent, with the caller's flags, and with
  \<^verbatim>\<open>DB_TXN_WRITE_NOSYNC\<close> when the caller gives none; it always returns, and it returns
  NULL whenever the engine reports a non-zero status or stores no transaction pointer.
\<close>

theorem CDBEnv_TxnBegin_spec:
  assumes "dbenv env = Some h"
  shows "(case txn_begin e h None (or_default flags (DB_TXN_WRITE_NOSYNC e)) s of
            (ret, ptxn, s') \<Rightarrow>
              CDBEnv_TxnBegin e env flags s
                = Inr (if ret \<noteq> 0 \<or> ptxn = None then None else ptxn, s'))
       \<and> (\<exists>r s'. CDBEnv_TxnBegin (recording e) env (Some f) (s, log)
                   = Inr (r, (s', log @ [Call_txn_begin h None f])))
       \<and> (\<exists>r s'. CDBEnv_TxnBegin (recording e) env None (s, log)
                   = Inr (r, (s', log @ [Call_txn_begin h None (DB_TXN_WRITE_NOSYNC e)])))"
  using assms
  by (auto simp: CDBEnv_TxnBegin_def recording_def or_default_def split: prod.splits)

theorem CDBEnv_TxnBegin_spec_witness:
  "dbenv open_env = Some (DB_ENV_at 0)
   \<and> CDBEnv_TxnBegin kv_engine open_env None no_records = Inr (Some (DB_TXN_at 1), no_records)
   \<and> CDBEnv_TxnBegin failing_txn_engine open_env (Some 0) no_records = Inr (None, no_records)"
proof -
  have h: "dbenv open_env = Some (DB_ENV_at 0)"
    by (simp add: open_env_def)
  show ?thesis
    using h CDBEnv_TxnBegin_spec [OF h, of kv_engine None no_records]
      CDBEnv_TxnBegin_spec [OF h, of failing_txn_engine "Some 0" no_records]
    by (simp add: kv_engine_def failing_txn_engine_def or_default_def)
qed

section \<open>Reading at a cursor\<close>

lemma overwrite_buffer:
  "write_bytes bs (clear (SetType n ss)) = \<lparr>vch = bs, nType = n\<rparr>"
  by (simp add: write_bytes_def clear_def SetType_def)

lemma cursor_descriptors:
  "(if f = DB_SET e \<or> f = DB_SET_RANGE e \<or> f = DB_GET_BOTH e \<or> f = DB_GET_BOTH_RANGE e
    then DBT_zero\<lparr>data := Some (vch ssKey)\<rparr> else DBT_zero)
      \<lparr>dbt_flags := dbt_flags (if f = DB_SET e \<or> f = DB_SET_RANGE e \<or> f = DB_GET_BOTH e \<or> f = DB_GET_BOTH_RANGE e
    then DBT_zero\<lparr>data := Some (vch ssKey)\<rparr> else DBT_zero) OR DB_DBT_MALLOC e\<rparr> = seek_key e f ssKey"
  "(if f = DB_GET_BOTH e \<or> f = DB_GET_BOTH_RANGE e
    then DBT_zero\<lparr>data := Some (vch ssValue)\<rparr> else DBT_zero)
      \<lparr>dbt_flags := dbt_flags (if f = DB_GET_BOTH e \<or> f = DB_GET_BOTH_RANGE e
    then DBT_zero\<lparr>data := Some (vch ssValue)\<rparr> else DBT_zero) OR DB_DBT_MALLOC e\<rparr> = seek_value e f ssValue"
  by (simp_all add: seek_key_def seek_value_def DBT_zero_def)

lemma ReadAtCursor_result:
  assumes "dbc_get e pcursor (seek_key e (or_default fFlags (DB_NEXT e)) ssKey)
             (seek_value e (or_default fFlags (DB_NEXT e)) ssValue)
             (or_default fFlags (DB_NEXT e)) s = (ret, datKey', datValue', s')"
  shows "ReadAtCursor e pcursor ssKey ssValue fFlags s =
          (if ret \<noteq> 0 then (ret, ssKey, ssValue, s')
           else
             (case data datKey' of
                None \<Rightarrow> (99999, ssKey, ssValue, s')
              | Some kb \<Rightarrow>
                  (case data datValue' of
                     None \<Rightarrow> (99999, ssKey, ssValue, s')
                   | Some vb \<Rightarrow>
                       (0, \<lparr>vch = kb, nType = SER_DISK\<rparr>, \<lparr>vch = vb, nType = SER_DISK\<rparr>, s'))))"
  unfolding ReadAtCursor_def Let_def cursor_descriptors
  using assms by (simp add: overwrite_buffer split: option.splits)

lemma recording_dbc_get:
  "dbc_get (recording e) c k v f (s, log) =
     (case dbc_get e c k v f s of
        (ret, k', v', s') \<Rightarrow> (ret, k', v', (s', log @ [Call_dbc_get c k v f])))"
  by (simp add: recording_def)

lemma seek_recording:
  "seek_key (recording e) f ssKey = seek_key e f ssKey"
  "seek_value (recording e) f ssValue = seek_value e f ssValue"
  "DB_NEXT (recording e) = DB_NEXT e"
  by (simp_all add: seek_key_def seek_value_def recording_def)

lemma ReadAtCursor_recorded:
  assumes "dbc_get e pcursor (seek_key e (or_default fFlags (DB_NEXT e)) ssKey)
             (seek_value e (or_default fFlags (DB_NEXT e)) ssValue)
             (or_default fFlags (DB_NEXT e)) s = (ret, datKey', datValue', s')"
  shows "snd (snd (snd (snd (ReadAtCursor (recording e) pcursor ssKey ssValue fFlags (s, log)))))
           = log @ [Call_dbc_get pcursor (seek_key e (or_default fFlags (DB_NEXT e)) ssKey)
                      (seek_value e (or_default fFlags (DB_NEXT e)) ssValue)
                      (or_default fFlags (DB_NEXT e))]"
proof -
  have "dbc_get (recording e) pcursor (seek_key (recording e) (or_default fFlags (DB_NEXT (recording e))) ssKey)
             (seek_value (recording e) (or_default fFlags (DB_NEXT (recording e))) ssValue)
             (or_default fFlags (DB_NEXT (recording e))) (s, log)
        = (ret, datKey', datValue',
           (s', log @ [Call_dbc_get pcursor (seek_key e (or_default fFlags (DB_NEXT e)) ssKey)
                      (seek_value e (or_default fFlags (DB_NEXT e)) ssValue)
                      (or_default fFlags (DB_NEXT e))]))"
    by (simp add: seek_recording recording_dbc_get assms)
  from ReadAtCursor_result [OF this] show ?thesis
    by (simp split: option.splits)
qed

lemma kv_dbc_get_set:
  "dbc_get kv_engine (DBC_at 1) (seek_key kv_engine 26 version_buffer)
      (seek_value kv_engine 26 empty_buffer) 26 wallet_records
    = (0, \<lparr>data = Some ''version'', dbt_flags = 4\<rparr>, \<lparr>data = Some ''1'', dbt_flags = 4\<rparr>, wallet_records)"
  by (simp add: kv_engine_def seek_key_def seek_value_def version_buffer_def empty_buffer_def
      wallet_records_def)

lemma null_dbc_get:
  "dbc_get null_data_engine (DBC_at 1) (seek_key null_data_engine 26 version_buffer)
      (seek_value null_data_engine 26 empty_buffer) 26 wallet_records
    = (0, \<lparr>data = None, dbt_flags = 4\<rparr>, \<lparr>data = None, dbt_flags = 4\<rparr>, wallet_records)"
  by (simp add: null_data_engine_def kv_engine_def seek_key_def seek_value_def)

lemma flag_26:
  "26 = or_default (Some 26) (DB_NEXT kv_engine)"
  "26 = or_default (Some 26) (DB_NEXT null_data_engine)"
  by (simp_all add: or_default_def)

text \<open>
  C7, as the code has it. \<open>ReadAtCursor\<close> asks the engine once, with the positioning
  flag and two descriptors: the key descriptor holds the bytes of the caller's key
  buffer exactly when the flag is one of \<^verbatim>\<open>DB_SET\<close>, \<^verbatim>\<open>DB_SET_RANGE\<close>,
  \<^verbatim>\<open>DB_GET_BOTH\<close>, \<^verbatim>\<open>DB_GET_BOTH_RANGE\<close> and is NULL for every other flag; the value
  descriptor holds the bytes of the value buffer exactly for \<^verbatim>\<open>DB_GET_BOTH\<close> and
  \<^verbatim>\<open>DB_GET_BOTH_RANGE\<close> and is NULL for every other flag. When the engine reports
  status 0 with key and value data, the call returns 0 and both buffers hold the
  record the engine returned; a non-zero engine status is returned as it is, with the
  buffers untouched; and status 0 with a NULL key or value pointer is returned as
  99999, with the buffers untouched.
\<close>

theorem ReadAtCursor_seek_and_status:
  assumes "f = or_default fFlags (DB_NEXT e)"
    and "dbc_get e pcursor (seek_key e f ssKey) (seek_value e f ssValue) f s
           = (ret, datKey', datValue', s')"
  shows "snd (snd (snd (snd (ReadAtCursor (recording e) pcursor ssKey ssValue fFlags (s, log)))))
           = log @ [Call_dbc_get pcursor (seek_key e f ssKey) (seek_value e f ssValue) f]
       \<and> (data (seek_key e f ssKey) = Some (vch ssKey))
           = (f \<in> {DB_SET e, DB_SET_RANGE e, DB_GET_BOTH e, DB_GET_BOTH_RANGE e})
       \<and> (data (seek_key e f ssKey) = None)
           = (f \<notin> {DB_SET e, DB_SET_RANGE e, DB_GET_BOTH e, DB_GET_BOTH_RANGE e})
       \<and> (data (seek_value e f ssValue) = Some (vch ssValue))
           = (f \<in> {DB_GET_BOTH e, DB_GET_BOTH_RANGE e})
       \<and> (data (seek_value e f ssValue) = None)
           = (f \<notin> {DB_GET_BOTH e, DB_GET_BOTH_RANGE e})
       \<and> (ret = 0 \<and> data datKey' \<noteq> None \<and> data datValue' \<noteq> None \<longrightarrow>
            (\<exists>kb vb. data datKey' = Some kb \<and> data datValue' = Some vb
               \<and> ReadAtCursor e pcursor ssKey ssValue fFlags s
                   = (0, \<lparr>vch = kb, nType = SER_DISK\<rparr>, \<lparr>vch = vb, nType = SER_DISK\<rparr>, s')))
       \<and> (ret \<noteq> 0 \<longrightarrow>
            ReadAtCursor e pcursor ssKey ssValue fFlags s = (ret, ssKey, ssValue, s'))
       \<and> (ret = 0 \<and> (data datKey' = None \<or> data datValue' = None) \<longrightarrow>
            ReadAtCursor e pcursor ssKey ssValue fFlags s = (99999, ssKey, ssValue, s'))"
proof -
  note r = ReadAtCursor_result [OF assms(2) [unfolded assms(1)]]
  note l = ReadAtCursor_recorded [OF assms(2) [unfolded assms(1)], of log, folded assms(1)]
  have a: "(data (seek_key e f ssKey) = Some (vch ssKey))
           = (f \<in> {DB_SET e, DB_SET_RANGE e, DB_GET_BOTH e, DB_GET_BOTH_RANGE e})"
    "(data (seek_key e f ssKey) = None)
           = (f \<notin> {DB_SET e, DB_SET_RANGE e, DB_GET_BOTH e, DB_GET_BOTH_RANGE e})"
    "(data (seek_value e f ssValue) = Some (vch ssValue))
           = (f \<in> {DB_GET_BOTH e, DB_GET_BOTH_RANGE e})"
    "(data (seek_value e f ssValue) = None)
           = (f \<notin> {DB_GET_BOTH e, DB_GET_BOTH_RANGE e})"
    by (simp_all add: seek_key_def seek_value_def)
  have b: "(ret = 0 \<and> data datKey' \<noteq> None \<and> data datValue' \<noteq> None \<longrightarrow>
            (\<exists>kb vb. data datKey' = Some kb \<and> data datValue' = Some vb
               \<and> ReadAtCursor e pcursor ssKey ssValue fFlags s
                   = (0, \<lparr>vch = kb, nType = SER_DISK\<rparr>, \<lparr>vch = vb, nType = SER_DISK\<rparr>, s')))
       \<and> (ret \<noteq> 0 \<longrightarrow>
            ReadAtCursor e pcursor ssKey ssValue fFlags s = (ret, ssKey, ssValue, s'))
       \<and> (ret = 0 \<and> (data datKey' = None \<or> data datValue' = None) \<longrightarrow>
            ReadAtCursor e pcursor ssKey ssValue fFlags s = (99999, ssKey, ssValue, s'))"
    by (cases "data datKey'"; cases "data datValue'"; simp add: r)
  from l a b show ?thesis by blast
qed

theorem ReadAtCursor_seek_and_status_witness:
  "ReadAtCursor kv_engine (DBC_at 1) version_buffer empty_buffer (Some 26) wallet_records
     = (0, \<lparr>vch = ''version'', nType = SER_DISK\<rparr>, \<lparr>vch = ''1'', nType = SER_DISK\<rparr>, wallet_records)
   \<and> snd (snd (snd (snd (ReadAtCursor (recording kv_engine) (DBC_at 1) version_buffer empty_buffer
         (Some 26) (wallet_records, [])))))
     = [Call_dbc_get (DBC_at 1) \<lparr>data = Some ''version'', dbt_flags = 4\<rparr>
          \<lparr>data = None, dbt_flags = 4\<rparr> 26]"
  using ReadAtCursor_seek_and_status [OF flag_26(1) kv_dbc_get_set, of "[]"]
  by (simp add: seek_key_def seek_value_def kv_engine_def version_buffer_def)

text \<open>
  The claim as the spec words it (the returned value is the engine's raw status)
  fails where the engine reports status 0 and hands back no data: the engine's status
  is 0 and the call returns 99999.
\<close>

theorem ReadAtCursor_raw_status_counterexample:
  "fst (dbc_get null_data_engine (DBC_at 1) (seek_key null_data_engine 26 version_buffer)
          (seek_value null_data_engine 26 empty_buffer) 26 wallet_records) = 0
   \<and> fst (ReadAtCursor null_data_engine (DBC_at 1) version_buffer empty_buffer (Some 26)
            wallet_records) = 99999"
  using ReadAtCursor_result [of null_data_engine "DBC_at 1" "Some 26" version_buffer empty_buffer
      wallet_records] null_dbc_get
  by (simp add: or_default_def)

text \<open>
  C10. If the engine's cursor get reports status 0 with a NULL key pointer or a NULL
  value pointer, \<open>ReadAtCursor\<close> returns 99999 and both buffers are the caller's;
  a buffer differs from the caller's only when the status is 0 and both pointers are
  set; and with an engine status other than 99999, the call returns 99999 exactly on
  that path, so 99999 is told apart from every status the engine gives.
\<close>

theorem ReadAtCursor_sentinel:
  assumes "f = or_default fFlags (DB_NEXT e)"
    and "dbc_get e pcursor (seek_key e f ssKey) (seek_value e f ssValue) f s
           = (ret, datKey', datValue', s')"
  shows "(ret = 0 \<and> (data datKey' = None \<or> data datValue' = None) \<longrightarrow>
            ReadAtCursor e pcursor ssKey ssValue fFlags s = (99999, ssKey, ssValue, s'))
       \<and> (fst (snd (ReadAtCursor e pcursor ssKey ssValue fFlags s)) \<noteq> ssKey
          \<or> fst (snd (snd (ReadAtCursor e pcursor ssKey ssValue fFlags s))) \<noteq> ssValue \<longrightarrow>
            ret = 0 \<and> data datKey' \<noteq> None \<and> data datValue' \<noteq> None)
       \<and> (ret \<noteq> 99999 \<longrightarrow>
            (fst (ReadAtCursor e pcursor ssKey ssValue fFlags s) = 99999)
              = (ret = 0 \<and> (data datKey' = None \<or> data datValue' = None)))"
proof -
  note r = ReadAtCursor_result [OF assms(2) [unfolded assms(1)]]
  show ?thesis
    by (cases "data datKey'"; cases "data datValue'"; simp add: r)
qed

theorem ReadAtCursor_sentinel_witness:
  "ReadAtCursor null_data_engine (DBC_at 1) version_buffer empty_buffer (Some 26) wallet_records
     = (99999, version_buffer, empty_buffer, wallet_records)"
  using ReadAtCursor_sentinel [OF flag_26(2) null_dbc_get]
  by simp

section \<open>Reading a record\<close>

text \<open>
  C4. On an open accessor, whatever the engine answers to the lookup: if it leaves
  the value pointer NULL (the key is not found), \<open>Read\<close> returns \<open>false\<close> and the
  caller's \<^verbatim>\<open>value\<close> is untouched; if it reports a non-zero status, \<open>Read\<close> returns
  \<open>false\<close>; and if decoding the stored bytes throws, \<open>Read\<close> returns \<open>false\<close>. \<open>Read\<close>
  has no other outcome than a returned pair: the exception does not reach the caller.
\<close>

theorem Read_absent_on_miss_or_decode_failure:
  assumes "pdb a = Some d"
    and "db_get e d (activeTxn a) (key_dbt (ser_key cd key)) (malloc_dbt e) 0 s
           = (ret, datValue', s')"
  shows "(data datValue' = None \<longrightarrow> Read e cd a key value s = ((False, value), s'))
       \<and> (ret \<noteq> 0 \<longrightarrow> \<not> fst (fst (Read e cd a key value s)))
       \<and> (\<forall>bs value'. data datValue' = Some bs \<and> unser_value cd bs value = Threw value' \<longrightarrow>
            Read e cd a key value s = ((False, value'), s'))"
  using assms by (auto simp: Read_open split: option.splits unserialized.splits)

lemma kv_get_missing:
  "db_get kv_engine (DB_at 1) (activeTxn wallet) (key_dbt (ser_key string_codec ''missing''))
      (malloc_dbt kv_engine) 0 wallet_records
    = (- 30988, malloc_dbt kv_engine, wallet_records)"
  by (simp add: kv_engine_def key_dbt_def string_codec_def wallet_records_def)

lemma kv_get_bad:
  "db_get kv_engine (DB_at 1) (activeTxn wallet) (key_dbt (ser_key string_codec ''bad''))
      (malloc_dbt kv_engine) 0 wallet_records
    = (0, \<lparr>data = Some [], dbt_flags = 4\<rparr>, wallet_records)"
  by (simp add: kv_engine_def key_dbt_def string_codec_def wallet_records_def malloc_dbt_def)

lemma wallet_open: "pdb wallet = Some (DB_at 1)" "\<not> fReadOnly wallet"
  by (simp_all add: wallet_def)

theorem Read_absent_on_miss_or_decode_failure_witness:
  "Read kv_engine string_codec wallet ''missing'' ''0'' wallet_records
     = ((False, ''0''), wallet_records)
   \<and> Read kv_engine string_codec wallet ''bad'' ''0'' wallet_records
     = ((False, ''0''), wallet_records)"
  using Read_absent_on_miss_or_decode_failure [OF wallet_open(1) kv_get_missing, of "''0''"]
    Read_absent_on_miss_or_decode_failure [OF wallet_open(1) kv_get_bad, of "''0''"]
  by (simp add: malloc_dbt_def string_codec_def)

section \<open>Erasing a record\<close>

text \<open>
  C3. On an open, writable accessor, \<open>Erase\<close> returns \<open>true\<close> when the engine removed
  the key (status 0) and when the engine found no such key (\<^verbatim>\<open>DB_NOTFOUND\<close>); it
  returns \<open>false\<close> exactly when the engine's status is neither, that is on an engine
  error; and with an engine that keeps the \<open>del_contract\<close>, erasing the key twice in
  a row gives the result and the engine state of erasing it once.
\<close>

theorem Erase_true_when_removed_or_absent:
  assumes "pdb a = Some d" and "\<not> fReadOnly a"
    and "db_del e d (activeTxn a) (key_dbt (ser_key cd key)) 0 s = (ret, s')"
  shows "(ret = 0 \<longrightarrow> Erase e cd a key s = Inr (True, s'))
       \<and> (ret = DB_NOTFOUND e \<longrightarrow> Erase e cd a key s = Inr (True, s'))
       \<and> (Erase e cd a key s = Inr (False, s')) = (ret \<noteq> 0 \<and> ret \<noteq> DB_NOTFOUND e)
       \<and> (\<exists>ok. Erase e cd a key s = Inr (ok, s'))
       \<and> (del_contract e d (activeTxn a) \<and> (ret = 0 \<or> ret = DB_NOTFOUND e) \<longrightarrow>
            Erase_twice e cd a key s = Erase e cd a key s)"
proof -
  have once: "Erase e cd a key s = Inr (ret = 0 \<or> ret = DB_NOTFOUND e, s')"
    using assms by (simp add: Erase_open)
  have twice: "Erase_twice e cd a key s = Erase e cd a key s"
    if c: "del_contract e d (activeTxn a)" and ok: "ret = 0 \<or> ret = DB_NOTFOUND e"
  proof -
    have "fst (db_del e d (activeTxn a) (key_dbt (ser_key cd key)) 0 s) \<in> {0, DB_NOTFOUND e}"
      using ok assms(3) by auto
    with c have "db_del e d (activeTxn a) (key_dbt (ser_key cd key)) 0
          (snd (db_del e d (activeTxn a) (key_dbt (ser_key cd key)) 0 s))
        = (DB_NOTFOUND e, snd (db_del e d (activeTxn a) (key_dbt (ser_key cd key)) 0 s))"
      unfolding del_contract_def by blast
    then have "db_del e d (activeTxn a) (key_dbt (ser_key cd key)) 0 s' = (DB_NOTFOUND e, s')"
      by (simp add: assms(3))
    then have "Erase e cd a key s' = Inr (True, s')"
      using assms(1,2) by (simp add: Erase_open)
    then show ?thesis
      using ok by (simp add: Erase_twice_def once)
  qed
  show ?thesis
    using once twice by auto
qed

lemma kv_del_contract: "del_contract kv_engine d t"
  by (simp add: del_contract_def kv_engine_def key_dbt_def)

lemma kv_del_version:
  "db_del kv_engine (DB_at 1) (activeTxn wallet) (key_dbt (ser_key string_codec ''version'')) 0
      wallet_records
    = (0, no_records(DB_at 1 := [''bad'' \<mapsto> []]))"
  by (auto simp: kv_engine_def key_dbt_def string_codec_def wallet_records_def fun_upd_twist)

lemma kv_del_missing:
  "db_del kv_engine (DB_at 1) (activeTxn wallet) (key_dbt (ser_key string_codec ''missing'')) 0
      wallet_records
    = (- 30988, wallet_records)"
  by (simp add: kv_engine_def key_dbt_def string_codec_def wallet_records_def)

theorem Erase_true_when_removed_or_absent_witness:
  "Erase kv_engine string_codec wallet ''version'' wallet_records
     = Inr (True, no_records(DB_at 1 := [''bad'' \<mapsto> []]))
   \<and> Erase kv_engine string_codec wallet ''missing'' wallet_records = Inr (True, wallet_records)
   \<and> Erase_twice kv_engine string_codec wallet ''version'' wallet_records
     = Erase kv_engine string_codec wallet ''version'' wallet_records"
  using Erase_true_when_removed_or_absent [OF wallet_open kv_del_version]
    Erase_true_when_removed_or_absent [OF wallet_open kv_del_missing]
    kv_del_contract [of "DB_at 1" "activeTxn wallet"]
  by (simp add: kv_engine_def)

section \<open>Transactions of an accessor\<close>

lemma TxnCommit_active:
  "pdb a \<noteq> None \<Longrightarrow> activeTxn a = Some t \<Longrightarrow>
   TxnCommit e a s = (fst (txn_commit e t 0 s) = 0, a\<lparr>activeTxn := None\<rparr>, snd (txn_commit e t 0 s))"
  by (cases "txn_commit e t 0 s") (auto simp: TxnCommit_def)

lemma TxnAbort_active:
  "pdb a \<noteq> None \<Longrightarrow> activeTxn a = Some t \<Longrightarrow>
   TxnAbort e a s = (fst (txn_abort e t s) = 0, a\<lparr>activeTxn := None\<rparr>, snd (txn_abort e t s))"
  by (cases "txn_abort e t s") (auto simp: TxnAbort_def)

lemma TxnBegin_keeps_invariant:
  "txn_needs_handle a \<Longrightarrow> TxnBegin e env a s = Inr (ok, a', s') \<Longrightarrow> txn_needs_handle a'"
  by (auto simp: TxnBegin_def txn_needs_handle_def split: if_splits sum.splits option.splits)

lemma TxnBegin_true:
  "TxnBegin e env a s = Inr (True, a', s') \<Longrightarrow>
   pdb a \<noteq> None \<and> activeTxn a = None \<and> activeTxn a' \<noteq> None"
  by (auto simp: TxnBegin_def split: if_splits sum.splits option.splits)

text \<open>
  C2. An accessor holds at most one transaction, its \<^verbatim>\<open>activeTxn\<close>. \<open>TxnBegin\<close>
  returns \<open>false\<close>, without asking the engine and without changing the accessor, if a
  transaction is active or the database handle is NULL, and where it returns \<open>true\<close>
  no transaction was active before. \<open>TxnCommit\<close> and \<open>TxnAbort\<close> return \<open>false\<close>
  if no transaction is active. After \<open>TxnCommit\<close> and after \<open>TxnAbort\<close> the accessor
  has no active transaction, whatever status the engine gave to the commit or abort.
  The accessor is one the code can leave behind: it holds a transaction only together
  with a handle, which \<open>TxnBegin\<close> keeps so.
\<close>

theorem one_active_transaction:
  assumes "txn_needs_handle a"
  shows "(pdb a = None \<or> activeTxn a \<noteq> None \<longrightarrow> TxnBegin e env a s = Inr (False, a, s))
       \<and> (activeTxn a = None \<longrightarrow>
            TxnCommit e a s = (False, a, s) \<and> TxnAbort e a s = (False, a, s))
       \<and> activeTxn (fst (snd (TxnCommit e a s))) = None
       \<and> activeTxn (fst (snd (TxnAbort e a s))) = None
       \<and> (\<forall>t. activeTxn a = Some t \<longrightarrow>
            TxnCommit e a s
              = (fst (txn_commit e t 0 s) = 0, a\<lparr>activeTxn := None\<rparr>, snd (txn_commit e t 0 s))
          \<and> TxnAbort e a s
              = (fst (txn_abort e t s) = 0, a\<lparr>activeTxn := None\<rparr>, snd (txn_abort e t s)))
       \<and> (\<forall>ok a' s'. TxnBegin e env a s = Inr (ok, a', s') \<longrightarrow>
            txn_needs_handle a' \<and> (ok \<longrightarrow> activeTxn a = None \<and> activeTxn a' \<noteq> None))"
proof -
  have busy: "pdb a = None \<or> activeTxn a \<noteq> None \<longrightarrow> TxnBegin e env a s = Inr (False, a, s)"
    by (simp add: TxnBegin_def)
  have none: "activeTxn a = None \<longrightarrow>
            TxnCommit e a s = (False, a, s) \<and> TxnAbort e a s = (False, a, s)"
    by (simp add: TxnCommit_def TxnAbort_def)
  have active: "TxnCommit e a s
              = (fst (txn_commit e t 0 s) = 0, a\<lparr>activeTxn := None\<rparr>, snd (txn_commit e t 0 s))
          \<and> TxnAbort e a s
              = (fst (txn_abort e t s) = 0, a\<lparr>activeTxn := None\<rparr>, snd (txn_abort e t s))"
    if "activeTxn a = Some t" for t
    using assms that by (auto simp: txn_needs_handle_def TxnCommit_active TxnAbort_active)
  have after: "activeTxn (fst (snd (TxnCommit e a s))) = None"
    "activeTxn (fst (snd (TxnAbort e a s))) = None"
    using none active by (cases "activeTxn a"; simp)+
  have inv: "txn_needs_handle a' \<and> (ok \<longrightarrow> activeTxn a = None \<and> activeTxn a' \<noteq> None)"
    if "TxnBegin e env a s = Inr (ok, a', s')" for ok a' s'
    using assms that TxnBegin_keeps_invariant [of a e env s ok a' s'] TxnBegin_true [of e env a s a' s']
    by (cases ok) simp_all
  show ?thesis
    using busy none after active inv by blast
qed

lemma wallets_need_handle:
  "txn_needs_handle wallet_in_txn" "txn_needs_handle wallet" "txn_needs_handle wallet_closed"
  by (simp_all add: txn_needs_handle_def wallet_in_txn_def wallet_closed_def wallet_def)

theorem one_active_transaction_witness:
  "txn_needs_handle wallet_in_txn
   \<and> TxnBegin kv_engine open_env wallet_in_txn no_records = Inr (False, wallet_in_txn, no_records)
   \<and> TxnBegin kv_engine open_env wallet_closed no_records = Inr (False, wallet_closed, no_records)
   \<and> TxnCommit kv_engine wallet no_records = (False, wallet, no_records)
   \<and> TxnAbort kv_engine wallet no_records = (False, wallet, no_records)
   \<and> TxnCommit failing_txn_engine wallet_in_txn no_records = (False, wallet, no_records)
   \<and> TxnAbort kv_engine wallet_in_txn no_records = (True, wallet, no_records)"
  using wallets_need_handle(1)
    one_active_transaction [OF wallets_need_handle(1), of kv_engine open_env no_records]
    one_active_transaction [OF wallets_need_handle(3), of kv_engine open_env no_records]
    one_active_transaction [OF wallets_need_handle(2), of kv_engine open_env no_records]
    one_active_transaction [OF wallets_need_handle(1), of failing_txn_engine open_env no_records]
  by (simp add: wallet_in_txn_def wallet_closed_def wallet_def kv_engine_def failing_txn_engine_def)

section \<open>Writing, then reading\<close>

lemma put_reads_back:
  "store_contract e d t \<Longrightarrow> db_put e d t (key_dbt kb) (key_dbt vb) f s = (0, s') \<Longrightarrow>
   reads_back e d t kb vb s'"
proof -
  assume c: "store_contract e d t" and p: "db_put e d t (key_dbt kb) (key_dbt vb) f s = (0, s')"
  from c have "fst (db_put e d t (key_dbt kb) (key_dbt vb) f s) = 0 \<longrightarrow>
          reads_back e d t kb vb (snd (db_put e d t (key_dbt kb) (key_dbt vb) f s))"
    unfolding store_contract_def by blast
  with p show ?thesis by simp
qed

lemma other_key_frame:
  assumes "store_contract e d t" and "kb' \<noteq> kb" and "reads_back e d t kb vb s"
  shows "reads_back e d t kb vb (snd (snd (db_get e d t (key_dbt kb') (malloc_dbt e) 0 s)))"
    and "reads_back e d t kb vb (snd (db_put e d t (key_dbt kb') (key_dbt vb') f s))"
    and "reads_back e d t kb vb (snd (db_del e d t (key_dbt kb') 0 s))"
    and "reads_back e d t kb vb (snd (db_exists e d t (key_dbt kb') 0 s))"
proof -
  from assms(1) have "kb' \<noteq> kb \<and> reads_back e d t kb vb s \<longrightarrow>
          reads_back e d t kb vb (snd (snd (db_get e d t (key_dbt kb') (malloc_dbt e) 0 s))) \<and>
          (\<forall>vb' f. reads_back e d t kb vb (snd (db_put e d t (key_dbt kb') (key_dbt vb') f s))) \<and>
          reads_back e d t kb vb (snd (db_del e d t (key_dbt kb') 0 s)) \<and>
          reads_back e d t kb vb (snd (db_exists e d t (key_dbt kb') 0 s))"
    unfolding store_contract_def by blast
  with assms(2,3) show
    "reads_back e d t kb vb (snd (snd (db_get e d t (key_dbt kb') (malloc_dbt e) 0 s)))"
    "reads_back e d t kb vb (snd (db_put e d t (key_dbt kb') (key_dbt vb') f s))"
    "reads_back e d t kb vb (snd (db_del e d t (key_dbt kb') 0 s))"
    "reads_back e d t kb vb (snd (db_exists e d t (key_dbt kb') 0 s))"
    by blast+
qed

lemma snd_Read_open:
  "pdb a = Some d \<Longrightarrow>
   snd (Read e cd a key value s)
     = snd (snd (db_get e d (activeTxn a) (key_dbt (ser_key cd key)) (malloc_dbt e) 0 s))"
  by (simp add: Read_open split: prod.splits option.splits unserialized.splits)

lemma do_op_other_key:
  assumes c: "store_contract e d (activeTxn a)"
    and h: "pdb a = Some d" and rw: "\<not> fReadOnly a"
    and other: "ser_key cd (op_key x) \<noteq> kb"
    and rb: "reads_back e d (activeTxn a) kb vb s"
  shows "\<exists>s'. do_op e cd a x s = Inr s' \<and> reads_back e d (activeTxn a) kb vb s'"
proof (cases x)
  case (Op_Read k v)
  with other have "ser_key cd k \<noteq> kb" by simp
  from other_key_frame(1) [OF c this rb] show ?thesis
    by (simp add: Op_Read snd_Read_open [OF h])
next
  case (Op_Write k v fOverwrite)
  with other have "ser_key cd k \<noteq> kb" by simp
  from other_key_frame(2) [OF c this rb, of "ser_value cd v"
      "if or_default fOverwrite True then 0 else DB_NOOVERWRITE e"]
  show ?thesis
    by (cases "db_put e d (activeTxn a) (key_dbt (ser_key cd k)) (key_dbt (ser_value cd v))
          (if or_default fOverwrite True then 0 else DB_NOOVERWRITE e) s")
      (simp add: Op_Write Write_open [OF h rw])
next
  case (Op_Erase k)
  with other have "ser_key cd k \<noteq> kb" by simp
  from other_key_frame(3) [OF c this rb] show ?thesis
    by (auto simp: Op_Erase Erase_open [OF h rw] split: prod.splits)
next
  case (Op_Exists k)
  with other have "ser_key cd k \<noteq> kb" by simp
  from other_key_frame(4) [OF c this rb] show ?thesis
    by (auto simp: Op_Exists Exists_open [OF h] split: prod.splits)
qed

lemma do_ops_other_keys:
  assumes c: "store_contract e d (activeTxn a)"
    and h: "pdb a = Some d" and rw: "\<not> fReadOnly a"
  shows "\<forall>x \<in> set ops. ser_key cd (op_key x) \<noteq> kb \<Longrightarrow>
         reads_back e d (activeTxn a) kb vb s \<Longrightarrow>
         \<exists>s'. do_ops e cd a ops s = Inr s' \<and> reads_back e d (activeTxn a) kb vb s'"
proof (induction ops arbitrary: s)
  case Nil
  then show ?case by simp
next
  case (Cons x xs)
  from Cons.prems(1) have "ser_key cd (op_key x) \<noteq> kb" by simp
  from do_op_other_key [OF c h rw this Cons.prems(2)]
  obtain s1 where s1: "do_op e cd a x s = Inr s1" "reads_back e d (activeTxn a) kb vb s1"
    by blast
  from Cons.prems(1) have "\<forall>y \<in> set xs. ser_key cd (op_key y) \<noteq> kb" by simp
  from Cons.IH [OF this s1(2)] show ?case
    by (simp add: s1(1))
qed

lemma Read_reads_back:
  assumes h: "pdb a = Some d"
    and rb: "reads_back e d (activeTxn a) (ser_key cd key) bs s"
    and dec: "unser_value cd bs v0 = Unserialized value"
  shows "fst (Read e cd a key v0 s) = (True, value)"
  using rb dec by (auto simp: Read_open [OF h] reads_back_def split: prod.splits)

text \<open>
  C6. With an engine that keeps the \<open>store_contract\<close> for the accessor's handle and
  transaction: after a \<open>Write\<close> of a key and value that returned \<open>true\<close>, and after
  any sequence of reads, writes, erases and existence checks of keys whose encoding
  differs from the written key's, all on the same accessor, the sequence has run to
  its end and \<open>Read\<close> of the key returns \<open>true\<close> and the written value, provided
  the value's encoding decodes to the value.
\<close>

theorem Write_then_Read:
  assumes contract: "store_contract e d (activeTxn a)"
    and h: "pdb a = Some d"
    and written: "Write e cd a key value fOverwrite s = Inr (True, s1)"
    and roundtrip: "\<forall>v0. unser_value cd (ser_value cd value) v0 = Unserialized value"
    and others: "\<forall>x \<in> set ops. ser_key cd (op_key x) \<noteq> ser_key cd key"
  shows "\<exists>s2. do_ops e cd a ops s1 = Inr s2 \<and> fst (Read e cd a key v0 s2) = (True, value)"
proof -
  have rw: "\<not> fReadOnly a"
    using written h by (auto simp: Write_def)
  have "\<exists>f. db_put e d (activeTxn a) (key_dbt (ser_key cd key)) (key_dbt (ser_value cd value)) f s
          = (0, s1)"
    using written by (auto simp: Write_open [OF h rw] split: prod.splits)
  then have "reads_back e d (activeTxn a) (ser_key cd key) (ser_value cd value) s1"
    using put_reads_back [OF contract] by blast
  from do_ops_other_keys [OF contract h rw others this]
  obtain s2 where s2: "do_ops e cd a ops s1 = Inr s2"
    "reads_back e d (activeTxn a) (ser_key cd key) (ser_value cd value) s2"
    by blast
  from roundtrip have "unser_value cd (ser_value cd value) v0 = Unserialized value"
    by simp
  from Read_reads_back [OF h s2(2) this] s2(1) show ?thesis
    by blast
qed

lemma kv_get:
  "db_get kv_engine d t (key_dbt kb) v f s =
     (case s d kb of None \<Rightarrow> (- 30988, v, s) | Some vb \<Rightarrow> (0, v\<lparr>data := Some vb\<rparr>, s))"
  by (simp add: kv_engine_def key_dbt_def)

lemma kv_put:
  "db_put kv_engine d t (key_dbt kb) (key_dbt vb) f s =
     (if f = 20 \<and> s d kb \<noteq> None then (- 30995, s) else (0, s(d := (s d)(kb \<mapsto> vb))))"
  by (simp add: kv_engine_def key_dbt_def)

lemma kv_del:
  "db_del kv_engine d t (key_dbt kb) f s =
     (if s d kb = None then (- 30988, s) else (0, s(d := (s d)(kb := None))))"
  by (simp add: kv_engine_def key_dbt_def)

lemma kv_exists:
  "db_exists kv_engine d t (key_dbt kb) f s = (if s d kb = None then (- 30988, s) else (0, s))"
  by (simp add: kv_engine_def key_dbt_def)

lemma kv_reads_back: "reads_back kv_engine d t kb vb s = (s d kb = Some vb)"
  by (simp add: reads_back_def kv_get split: option.splits)

lemma kv_store_contract: "store_contract kv_engine d t"
  unfolding store_contract_def kv_reads_back
  by (simp add: kv_get kv_put kv_del kv_exists split: option.splits)

lemma kv_write_addr:
  "Write kv_engine string_codec wallet ''addr'' ''xyz'' None wallet_records
     = Inr (True, wallet_records(DB_at 1 := (wallet_records (DB_at 1))(''addr'' \<mapsto> ''xyz'')))"
  by (simp add: Write_open [OF wallet_open] kv_put string_codec_def or_default_def)

lemma xyz_roundtrip: "\<forall>v0. unser_value string_codec (ser_value string_codec ''xyz'') v0 = Unserialized ''xyz''"
  by (simp add: string_codec_def)

lemma other_keys:
  "\<forall>x \<in> set [Op_Write ''version'' ''2'' (Some False), Op_Read ''version'' ''0'',
                Op_Erase ''bad'', Op_Exists ''other''].
     ser_key string_codec (op_key x) \<noteq> ser_key string_codec ''addr''"
  by (simp add: string_codec_def)

theorem Write_then_Read_witness:
  "Write kv_engine string_codec wallet ''addr'' ''xyz'' None wallet_records
     = Inr (True, wallet_records(DB_at 1 := (wallet_records (DB_at 1))(''addr'' \<mapsto> ''xyz'')))
   \<and> (\<exists>s2. do_ops kv_engine string_codec wallet
              [Op_Write ''version'' ''2'' (Some False), Op_Read ''version'' ''0'',
               Op_Erase ''bad'', Op_Exists ''other'']
              (wallet_records(DB_at 1 := (wallet_records (DB_at 1))(''addr'' \<mapsto> ''xyz''))) = Inr s2
          \<and> fst (Read kv_engine string_codec wallet ''addr'' ''0'' s2) = (True, ''xyz''))"
  using kv_write_addr
    Write_then_Read [OF kv_store_contract wallet_open(1) kv_write_addr xyz_roundtrip other_keys,
      of "''0''"]
  by simp

section \<open>Reference counts of open files\<close>

lemma filter_without_nth:
  assumes "i < length xs"
  shows "length (filter P xs)
           = length (filter P (take i xs @ drop (Suc i) xs)) + (if P (xs ! i) then 1 else 0)"
proof -
  have "xs = take i xs @ xs ! i # drop (Suc i) xs"
    using assms by (rule id_take_nth_drop)
  then have "filter P xs = filter P (take i xs @ xs ! i # drop (Suc i) xs)"
    by simp
  then show ?thesis
    by simp
qed

lemma consistent_fresh: "fresh env0 \<Longrightarrow> consistent \<lparr>environment = env0, live = []\<rparr>"
  by (simp add: fresh_def consistent_def live_on_def)

lemma consistent_open: "consistent w \<Longrightarrow> consistent (step w (Ev_Open fileName readOnly engine_open))"
proof -
  assume c: "consistent w"
  note c' = c [unfolded consistent_def, rule_format]
  show ?thesis
  proof (cases "OpenFile (environment w) fileName engine_open")
    case (Inl err)
    then show ?thesis using c by (simp add: CDB_Open_def)
  next
    case (Inr r)
    obtain h env' where r: "r = (h, env')" by (cases r)
    have st: "step w (Ev_Open fileName readOnly engine_open)
        = w\<lparr>environment := env',
             live := live w @ [\<lparr>pdb = h, strFile = fileName, activeTxn = None, fReadOnly = readOnly\<rparr>]\<rparr>"
      by (simp add: CDB_Open_def Inr r)
    show ?thesis
    proof (cases "mapDb (environment w) fileName")
      case None
      with Inr r obtain d where d:
        "env' = (environment w)\<lparr>mapDb := (mapDb (environment w))(fileName \<mapsto> Some d),
                 mapFileUseCount := (mapFileUseCount (environment w))(fileName \<mapsto> 1)\<rparr>"
        by (auto simp: OpenFile_def split: if_splits option.splits)
      from None c' [of fileName] have z: "mapFileUseCount (environment w) fileName = None" "live_on w fileName = 0"
        by auto
      show ?thesis
        unfolding st consistent_def
      proof (intro allI, goal_cases)
        case (1 F)
        show ?case
          using c' [of F] z
          by (cases "F = fileName") (auto simp: d live_on_def split: option.splits)
      qed
    next
      case (Some p)
      with Inr r have d:
        "env' = (environment w)\<lparr>mapFileUseCount :=
                   (mapFileUseCount (environment w))(fileName \<mapsto> refcount (environment w) fileName + 1)\<rparr>"
        by (auto simp: OpenFile_def split: if_splits option.splits)
      show ?thesis
        unfolding st consistent_def
      proof (intro allI, goal_cases)
        case (1 F)
        show ?case
          using c' [of F] Some
          by (cases "F = fileName")
            (auto simp: d live_on_def refcount_def split: option.splits)
      qed
    qed
  qed
qed

lemma consistent_destroy: "consistent w \<Longrightarrow> consistent (step w (Ev_Destroy i))"
proof -
  assume c: "consistent w"
  note c' = c [unfolded consistent_def, rule_format]
  show ?thesis
  proof (cases "i < length (live w)")
    case False
    then show ?thesis using c by simp
  next
    case True
    define G where "G = strFile (live w ! i)"
    define w' where "w' = w\<lparr>environment := CloseFile (environment w) G,
                             live := take i (live w) @ drop (Suc i) (live w)\<rparr>"
    have st: "step w (Ev_Destroy i) = w'"
      using True by (simp add: w'_def G_def Close_def)
    have cnt: "live_on w F = live_on w' F + (if G = F then 1 else 0)" for F
      unfolding live_on_def G_def w'_def using filter_without_nth [OF True] by simp
    from cnt [of G] have "live_on w G \<noteq> 0" by simp
    with c' [of G] obtain n where n: "mapFileUseCount (environment w) G = Some n"
      "n = int (live_on w G)" "1 \<le> n"
      by (auto split: option.splits)
    have env': "environment w' = CloseFile (environment w) G"
      by (simp add: w'_def)
    show ?thesis
      unfolding st consistent_def
    proof (intro allI, goal_cases)
      case (1 F)
      show ?case
      proof (cases "F = G")
        case True
        then show ?thesis
          using c' [of G] n cnt [of G]
          by (auto simp: env' CloseFile_def split: option.splits)
      next
        case False
        then show ?thesis
          using c' [of F] n cnt [of F]
          by (auto simp: env' CloseFile_def split: option.splits)
      qed
    qed
  qed
qed

lemma consistent_step: "consistent w \<Longrightarrow> consistent (step w ev)"
  by (cases ev) (simp_all only: consistent_open consistent_destroy)

lemma consistent_run: "consistent w \<Longrightarrow> consistent (run w evs)"
  unfolding run_def by (induction evs arbitrary: w) (simp_all add: consistent_step)

lemma consistent_refcount:
  assumes "consistent w"
  shows "(F \<in> dom (mapDb (environment w))) = (1 \<le> refcount (environment w) F)"
    and "refcount (environment w) F = int (live_on w F)"
  using assms [unfolded consistent_def, rule_format, of F]
  by (auto simp: refcount_def dom_def split: option.splits)

lemma destroy_last:
  assumes c: "consistent w" and i: "i < length (live w)"
    and F: "strFile (live w ! i) = F" and one: "live_on w F = 1"
  shows "F \<notin> dom (mapDb (environment (step w (Ev_Destroy i))))"
proof -
  from c [unfolded consistent_def, rule_format, of F] one
  have "mapFileUseCount (environment w) F = Some 1"
    by (auto split: option.splits)
  then show ?thesis
    using i F by (simp add: Close_def CloseFile_def)
qed

text \<open>
  C8, on the model of the spec's \<^verbatim>\<open>OpenFile\<close> and \<^verbatim>\<open>CloseFile\<close>. Start from an
  environment whose two maps are empty and no accessor, and let any sequence of
  accessor opens (successful or not) and accessor destructions happen. Then for every
  file name \<open>F\<close>: \<open>F\<close> is a key of the open-handle map if and only if its reference
  count is at least 1; the reference count is the number of live accessors that
  opened \<open>F\<close>; and destroying an accessor of \<open>F\<close> that is the only live one takes
  \<open>F\<close> out of the open-handle map.
\<close>

theorem refcount_counts_live_accessors:
  assumes "fresh env0" and "w = run \<lparr>environment = env0, live = []\<rparr> evs"
  shows "(F \<in> dom (mapDb (environment w))) = (1 \<le> refcount (environment w) F)
       \<and> refcount (environment w) F = int (live_on w F)
       \<and> (\<forall>i. i < length (live w) \<and> strFile (live w ! i) = F \<and> live_on w F = 1 \<longrightarrow>
            F \<notin> dom (mapDb (environment (step w (Ev_Destroy i)))))"
proof -
  have c: "consistent w"
    unfolding assms(2) by (rule consistent_run [OF consistent_fresh [OF assms(1)]])
  show ?thesis
    using consistent_refcount [OF c, of F] destroy_last [OF c] by blast
qed

lemma fresh_open_env: "fresh open_env"
  by (simp add: fresh_def open_env_def)

lemma run_open_twice_close_once:
  "run \<lparr>environment = open_env, live = []\<rparr> open_twice_close_once
     = \<lparr>environment = open_env\<lparr>mapDb := [''wallet.dat'' \<mapsto> Some (DB_at 1)],
                                  mapFileUseCount := [''wallet.dat'' \<mapsto> 1]\<rparr>,
        live = [\<lparr>pdb = Some (DB_at 1), strFile = ''wallet.dat'', activeTxn = None,
                 fReadOnly = True\<rparr>]\<rparr>"
  by (simp add: run_def open_twice_close_once_def CDB_Open_def OpenFile_def Close_def
      CloseFile_def refcount_def open_env_def)

theorem refcount_counts_live_accessors_witness:
  "fresh open_env
   \<and> ''wallet.dat'' \<in> dom (mapDb (environment
         (run \<lparr>environment = open_env, live = []\<rparr> open_twice_close_once)))
   \<and> refcount (environment (run \<lparr>environment = open_env, live = []\<rparr> open_twice_close_once))
        ''wallet.dat'' = 1
   \<and> live_on (run \<lparr>environment = open_env, live = []\<rparr> open_twice_close_once) ''wallet.dat'' = 1
   \<and> ''wallet.dat'' \<notin> dom (mapDb (environment
         (step (run \<lparr>environment = open_env, live = []\<rparr> open_twice_close_once) (Ev_Destroy 0))))"
proof -
  have one: "live_on (run \<lparr>environment = open_env, live = []\<rparr> open_twice_close_once) ''wallet.dat'' = 1"
    by (simp add: run_open_twice_close_once live_on_def)
  have i: "0 < length (live (run \<lparr>environment = open_env, live = []\<rparr> open_twice_close_once))
      \<and> strFile (live (run \<lparr>environment = open_env, live = []\<rparr> open_twice_close_once) ! 0)
          = ''wallet.dat''"
    by (simp add: run_open_twice_close_once)
  from refcount_counts_live_accessors [OF fresh_open_env refl, of "''wallet.dat''" open_twice_close_once]
    one i fresh_open_env
  show ?thesis
    by simp
qed

end
